theory Spec2Isabelle
  imports Main "HOL-Library.Word"
begin

section \<open>The placeholder image loader of \<^verbatim>\<open>libs/stb/stb_image.h\<close>\<close>

text \<open>
  The header implements \<^verbatim>\<open>stbi_load\<close> as a stub: it ignores the file name and the
  requested number of components, sets the three out-parameters to 64, 64 and 3, obtains
  a block of \<^verbatim>\<open>64 * 64 * 3\<close> bytes from \<^verbatim>\<open>malloc\<close> and fills it with a red and
  green checkerboard of 8 by 8 tiles.

  The embedding follows the C text statement by statement. The C \<^verbatim>\<open>int\<close>s are HOL
  integers: every value the function computes lies between 0 and 12288, so no
  operation can overflow. Division and remainder are C's (truncating towards zero).
\<close>

subsection \<open>Data\<close>

text \<open>\<^verbatim>\<open>typedef unsigned char stbi_uc;\<close>\<close>

type_synonym stbi_uc = "8 word"

text \<open>
  A byte of allocated memory: \<open>None\<close> while its content is indeterminate (never written
  since \<^verbatim>\<open>malloc\<close>), \<open>Some v\<close> once \<open>v\<close> has been stored in it.
\<close>

type_synonym cell = "stbi_uc option"

text \<open>
  A value of type \<^verbatim>\<open>stbi_uc *\<close>: the null pointer, or a pointer to the first byte of an
  allocated block, given with the block's cells.
\<close>

datatype ptr = Null | Block "cell list"

text \<open>
  The three \<^verbatim>\<open>int\<close> objects behind the out-parameters \<^verbatim>\<open>x\<close>, \<^verbatim>\<open>y\<close> and \<^verbatim>\<open>comp\<close>:
  \<open>x_val s\<close> is \<^verbatim>\<open>*x\<close>, \<open>y_val s\<close> is \<^verbatim>\<open>*y\<close>, \<open>comp_val s\<close> is \<^verbatim>\<open>*comp\<close>. They are three
  separate, valid objects of the caller, as in the interface
  \<^verbatim>\<open>decode(path, requested_channels) -> (buffer, width, height, channels)\<close>.
\<close>

record out_params =
  x_val :: int
  y_val :: int
  comp_val :: int

text \<open>What a store through a pointer does when the pointer does not allow it.\<close>

datatype fault = NullDeref | OutOfBounds

subsection \<open>C arithmetic\<close>

text \<open>The operators \<^verbatim>\<open>/\<close> and \<^verbatim>\<open>%\<close> of C on \<^verbatim>\<open>int\<close>: the quotient is truncated.\<close>

definition c_div :: "int \<Rightarrow> int \<Rightarrow> int" where
  "c_div a b = sgn a * sgn b * (\<bar>a\<bar> div \<bar>b\<bar>)"

definition c_mod :: "int \<Rightarrow> int \<Rightarrow> int" where
  "c_mod a b = a - b * c_div a b"

subsection \<open>Memory\<close>

text \<open>
  \<^verbatim>\<open>malloc\<close> belongs to the C library, not to the header. Whether the host can satisfy
  the request is the parameter \<open>heap_ok\<close>; a satisfied request yields a block of
  \<open>sz\<close> bytes of indeterminate content (\<^verbatim>\<open>malloc\<close> does not clear the memory it hands
  out), a refused one the null pointer.
\<close>

definition malloc :: "bool \<Rightarrow> int \<Rightarrow> ptr" where
  "malloc heap_ok sz = (if heap_ok then Block (replicate (nat sz) None) else Null)"

text \<open>
  The assignment \<^verbatim>\<open>data[idx] = v\<close>. C leaves a store through the null pointer or
  outside the block undefined; the model stops with a fault there.
\<close>

fun store_byte :: "ptr \<Rightarrow> int \<Rightarrow> stbi_uc \<Rightarrow> fault + ptr" where
  "store_byte Null idx v = Inl NullDeref"
| "store_byte (Block d) idx v =
     (if 0 \<le> idx \<and> idx < int (length d) then Inr (Block (d[nat idx := Some v]))
      else Inl OutOfBounds)"

subsection \<open>The function\<close>

text \<open>
  The body of the inner loop (lines 49 to 58):
  \<^verbatim>\<open>
    int idx = (i * (*x) + j) * 3;
    if ((i / 8 + j / 8) % 2 == 0) {
        data[idx] = 255; data[idx + 1] = 0;   data[idx + 2] = 0;
    } else {
        data[idx] = 0;   data[idx + 1] = 255; data[idx + 2] = 0;
    }
  \<close>
\<close>

definition fill_pixel :: "out_params \<Rightarrow> int \<Rightarrow> int \<Rightarrow> ptr \<Rightarrow> fault + ptr" where
  "fill_pixel s i j data =
     (let idx = (i * x_val s + j) * 3 in
      if c_mod (c_div i 8 + c_div j 8) 2 = 0 then
        (case store_byte data idx 255 of Inl e \<Rightarrow> Inl e | Inr d1 \<Rightarrow>
         (case store_byte d1 (idx + 1) 0 of Inl e \<Rightarrow> Inl e | Inr d2 \<Rightarrow>
          store_byte d2 (idx + 2) 0))
      else
        (case store_byte data idx 0 of Inl e \<Rightarrow> Inl e | Inr d1 \<Rightarrow>
         (case store_byte d1 (idx + 1) 255 of Inl e \<Rightarrow> Inl e | Inr d2 \<Rightarrow>
          store_byte d2 (idx + 2) 0)))"

text \<open>
  The inner loop \<^verbatim>\<open>for (int j = 0; j < *x; j++)\<close>, entered at \<open>j\<close>. Beside the pointer
  the loops carry a counter \<open>n\<close> of the executions of the loop body completed so far. The
  counter is not a variable of the program: it records how often the body has run.
\<close>

function loop_j :: "out_params \<Rightarrow> int \<Rightarrow> int \<Rightarrow> ptr \<times> nat \<Rightarrow> fault + ptr \<times> nat" where
  "loop_j s i j (data, n) =
     (if j < x_val s then
        (case fill_pixel s i j data of
           Inl e \<Rightarrow> Inl e
         | Inr data' \<Rightarrow> loop_j s i (j + 1) (data', Suc n))
      else Inr (data, n))"
  by pat_completeness auto
termination
  by (relation "measure (\<lambda>(s, i, j, st). nat (x_val s - j))") auto

text \<open>The outer loop \<^verbatim>\<open>for (int i = 0; i < *y; i++)\<close>, entered at \<open>i\<close>.\<close>

function loop_i :: "out_params \<Rightarrow> int \<Rightarrow> ptr \<times> nat \<Rightarrow> fault + ptr \<times> nat" where
  "loop_i s i st =
     (if i < y_val s then
        (case loop_j s i 0 st of
           Inl e \<Rightarrow> Inl e
         | Inr st' \<Rightarrow> loop_i s (i + 1) st')
      else Inr st)"
  by pat_completeness auto
termination
  by (relation "measure (\<lambda>(s, i, st). nat (y_val s - i))") auto

text \<open>
  \<^verbatim>\<open>stbi_uc *stbi_load(char const *filename, int *x, int *y, int *comp, int req_comp)\<close>.
  The result is the fault that stopped the function, or the returned pointer with the
  out-parameters as the function leaves them and the number of executions of the inner
  loop body. The local \<^verbatim>\<open>size\<close> is \<open>sz\<close> here. The first argument is not one of the C
  function: it is the answer of the allocator to the one request the call makes.
\<close>

definition stbi_load ::
  "bool \<Rightarrow> string \<Rightarrow> out_params \<Rightarrow> int \<Rightarrow> fault + ptr \<times> out_params \<times> nat" where
  "stbi_load heap_ok filename s req_comp =
     (let s1 = s\<lparr>x_val := 64\<rparr>;
          s2 = s1\<lparr>y_val := 64\<rparr>;
          s3 = s2\<lparr>comp_val := 3\<rparr>;
          sz = x_val s3 * y_val s3 * 3;
          data = malloc heap_ok sz
      in case loop_i s3 0 (data, 0) of
           Inl e \<Rightarrow> Inl e
         | Inr (data', n) \<Rightarrow> Inr (data', s3, n))"

subsection \<open>The pattern in closed form\<close>

text \<open>
  Two notions the proofs use. \<open>checker_byte n\<close> is the byte the finished image holds at
  offset \<open>n\<close>: offset \<open>n\<close> is component \<open>n mod 3\<close> of the pixel in row \<open>n div 3 div 64\<close>
  and column \<open>n div 3 mod 64\<close>. \<open>filled p d\<close> is the invariant of the two loops: the
  block has 12288 cells, and the cells of the first \<open>p\<close> pixels hold the pattern.
\<close>

definition checker_byte :: "nat \<Rightarrow> stbi_uc" where
  "checker_byte n =
     (if (n div 3 div 64 div 8 + n div 3 mod 64 div 8) mod 2 = 0
      then [255, 0, 0] ! (n mod 3) else [0, 255, 0] ! (n mod 3))"

definition filled :: "nat \<Rightarrow> cell list \<Rightarrow> bool" where
  "filled p d = (length d = 12288 \<and> (\<forall>n < 3 * p. d ! n = Some (checker_byte n)))"

section \<open>Running the function\<close>

text \<open>
  The defining equations of the loops are unfolded one step at a time, never by the
  simplifier on its own.
\<close>

declare loop_j.simps [simp del] loop_i.simps [simp del]

subsection \<open>C arithmetic on the values that occur\<close>

lemma c_div_nonneg: "0 \<le> a \<Longrightarrow> 0 < b \<Longrightarrow> c_div a b = a div b"
  by (cases "a = 0") (simp_all add: c_div_def)

lemma c_mod_nonneg: "0 \<le> a \<Longrightarrow> 0 < b \<Longrightarrow> c_mod a b = a mod b"
  by (simp add: c_mod_def c_div_nonneg minus_mult_div_eq_mod)

lemma tile_test_nat:
  "(c_mod (c_div (int a) 8 + c_div (int b) 8) 2 = 0) = ((a div 8 + b div 8) mod 2 = 0)"
proof -
  have "c_mod (c_div (int a) 8 + c_div (int b) 8) 2 = int ((a div 8 + b div 8) mod 2)"
    by (simp add: c_div_nonneg c_mod_nonneg zdiv_int zmod_int)
  then show ?thesis by simp
qed

lemma tile_test_int:
  "((int a div 8 + int b div 8) mod 2 = 0) = ((a div 8 + b div 8) mod 2 = 0)"
proof -
  have "(int a div 8 + int b div 8) mod 2 = int ((a div 8 + b div 8) mod 2)"
    by (simp add: zdiv_int zmod_int)
  then show ?thesis by simp
qed

lemma offset_nat:
  "nat ((int a * 64 + int b) * 3 + int k) = 3 * (a * 64 + b) + k"
proof -
  have "(int a * 64 + int b) * 3 + int k = int (3 * (a * 64 + b) + k)" by simp
  then show ?thesis by (simp only: nat_int)
qed

lemma checker_byte_at:
  assumes "p = a * 64 + b" "b < 64" "k < 3"
  shows "checker_byte (3 * p + k) =
     (if (a div 8 + b div 8) mod 2 = 0 then [255, 0, 0] ! k else [0, 255, 0] ! k)"
proof -
  have 1: "(3 * p + k) div 3 = p" using assms(3) by simp
  have 2: "(3 * p + k) mod 3 = k" using assms(3) by simp
  have 3: "p div 64 = a" using assms(1,2) by simp
  have 4: "p mod 64 = b" using assms(1,2) by simp
  show ?thesis unfolding checker_byte_def 1 2 3 4 ..
qed

subsection \<open>One execution of the loop body\<close>

lemma store_byte_Block:
  "n < length d \<Longrightarrow> store_byte (Block d) (int n) v = Inr (Block (d[n := Some v]))"
  by simp

lemma fill_pixel_Block:
  assumes x: "x_val s = 64" and p: "p = a * 64 + b" and b: "b < 64"
    and len: "3 * p + 2 < length d"
  shows "fill_pixel s (int a) (int b) (Block d) =
           Inr (Block (d[3 * p := Some (checker_byte (3 * p)),
                         3 * p + 1 := Some (checker_byte (3 * p + 1)),
                         3 * p + 2 := Some (checker_byte (3 * p + 2))]))"
proof -
  have idx: "(int a * x_val s + int b) * 3 = int (3 * p)"
    unfolding x p by simp
  have i1: "int (3 * p) + 1 = int (3 * p + 1)" and i2: "int (3 * p) + 2 = int (3 * p + 2)"
    by simp_all
  have c0: "checker_byte (3 * p) = (if (a div 8 + b div 8) mod 2 = 0 then 255 else 0)"
    using checker_byte_at [OF p b, of 0] by simp
  have c1: "checker_byte (3 * p + 1) = (if (a div 8 + b div 8) mod 2 = 0 then 0 else 255)"
    using checker_byte_at [OF p b, of 1] by simp
  have c2: "checker_byte (3 * p + 2) = 0"
    using checker_byte_at [OF p b, of 2] by simp
  have l0: "3 * p < length d" and l1: "3 * p + 1 < length d" using len by simp_all
  show ?thesis
  proof (cases "(a div 8 + b div 8) mod 2 = 0")
    case True
    then show ?thesis
      unfolding fill_pixel_def Let_def idx i1 i2 tile_test_nat c0 c1 c2
      using l0 l1 len by (simp only: store_byte_Block length_list_update sum.case) simp
  next
    case False
    then show ?thesis
      unfolding fill_pixel_def Let_def idx i1 i2 tile_test_nat c0 c1 c2
      using l0 l1 len by (simp only: store_byte_Block length_list_update sum.case) simp
  qed
qed

lemma fill_pixel_step:
  assumes x: "x_val s = 64" and a: "a < 64" and b: "b < 64" and f: "filled (a * 64 + b) d"
  shows "\<exists>d'. fill_pixel s (int a) (int b) (Block d) = Inr (Block d')
           \<and> filled (Suc (a * 64 + b)) d'"
proof -
  define p where "p = a * 64 + b"
  have len: "length d = 12288" using f by (simp add: filled_def)
  have pb: "p < 4096" using a b by (simp add: p_def)
  let ?d' = "d[3 * p := Some (checker_byte (3 * p)),
               3 * p + 1 := Some (checker_byte (3 * p + 1)),
               3 * p + 2 := Some (checker_byte (3 * p + 2))]"
  have run: "fill_pixel s (int a) (int b) (Block d) = Inr (Block ?d')"
    using pb len by (intro fill_pixel_Block [OF x p_def b]) simp
  have "filled (Suc p) ?d'"
    unfolding filled_def
  proof (intro conjI allI impI)
    show "length ?d' = 12288" using len by simp
  next
    fix n assume n: "n < 3 * Suc p"
    have "n < 3 * p \<or> n = 3 * p \<or> n = 3 * p + 1 \<or> n = 3 * p + 2"
      using n by arith
    then consider "n < 3 * p" | "n = 3 * p" | "n = 3 * p + 1" | "n = 3 * p + 2"
      by blast
    then show "?d' ! n = Some (checker_byte n)"
    proof cases
      case 1
      then show ?thesis using f by (simp add: filled_def p_def)
    next
      case 2
      then show ?thesis using pb len by simp
    next
      case 3
      then show ?thesis using pb len by simp
    next
      case 4
      then show ?thesis using pb len by simp
    qed
  qed
  with run show ?thesis unfolding p_def by blast
qed

subsection \<open>The loops\<close>

text \<open>
  Entered at column \<open>b\<close> of row \<open>a\<close> with the pixels before it filled, the inner loop
  runs its body \<open>64 - b\<close> times and leaves the rows up to \<open>a\<close> filled.
\<close>

lemma loop_j_run:
  assumes x: "x_val s = 64" and a: "a < 64"
  shows "k = 64 - b \<Longrightarrow> b \<le> 64 \<Longrightarrow> filled (a * 64 + b) d \<Longrightarrow>
    \<exists>d'. loop_j s (int a) (int b) (Block d, n) = Inr (Block d', n + k)
       \<and> filled (Suc a * 64) d'"
proof (induction k arbitrary: b d n)
  case 0
  then have "b = 64" by simp
  with 0 show ?case by (subst loop_j.simps) (simp add: x add.commute)
next
  case (Suc k)
  then have b: "b < 64" by simp
  from fill_pixel_step [OF x a b Suc.prems(3)]
  obtain d1 where d1: "fill_pixel s (int a) (int b) (Block d) = Inr (Block d1)"
    and f1: "filled (a * 64 + Suc b) d1" by auto
  have "\<exists>d'. loop_j s (int a) (int (Suc b)) (Block d1, Suc n) = Inr (Block d', Suc n + k)
       \<and> filled (Suc a * 64) d'"
    using Suc.prems b f1 by (intro Suc.IH) simp_all
  then obtain d' where "loop_j s (int a) (int b + 1) (Block d1, Suc n) = Inr (Block d', n + Suc k)"
    and "filled (Suc a * 64) d'" by (auto simp: add.commute)
  then show ?case using b d1 by (subst loop_j.simps) (simp add: x)
qed

lemma loop_i_run:
  assumes x: "x_val s = 64" and y: "y_val s = 64"
  shows "k = 64 - a \<Longrightarrow> a \<le> 64 \<Longrightarrow> filled (a * 64) d \<Longrightarrow>
    \<exists>d'. loop_i s (int a) (Block d, n) = Inr (Block d', n + k * 64) \<and> filled 4096 d'"
proof (induction k arbitrary: a d n)
  case 0
  then have "a = 64" by simp
  with 0 show ?case by (subst loop_i.simps) (simp add: y)
next
  case (Suc k)
  then have a: "a < 64" by simp
  from loop_j_run [OF x a, of 64 0 d n] Suc.prems(3)
  obtain d1 where d1: "loop_j s (int a) 0 (Block d, n) = Inr (Block d1, n + 64)"
    and f1: "filled (Suc a * 64) d1" by auto
  have "\<exists>d'. loop_i s (int (Suc a)) (Block d1, n + 64) = Inr (Block d', n + 64 + k * 64)
       \<and> filled 4096 d'"
    using Suc.prems a f1 by (intro Suc.IH) simp_all
  then obtain d' where "loop_i s (int a + 1) (Block d1, n + 64) = Inr (Block d', n + Suc k * 64)"
    and "filled 4096 d'" by (auto simp: add.commute add.left_commute)
  then show ?case using a d1 by (subst loop_i.simps) (simp add: y)
qed

subsection \<open>The whole call\<close>

lemma filled_all: "filled 4096 d \<Longrightarrow> d = map (\<lambda>n. Some (checker_byte n)) [0..<12288]"
  by (rule nth_equalityI) (simp_all add: filled_def)

lemma filled_start: "filled 0 (replicate 12288 None)"
  by (simp add: filled_def)

text \<open>When \<^verbatim>\<open>malloc\<close> succeeds the call returns the finished image after 4096 stores of a pixel.\<close>

lemma stbi_load_ok:
  "stbi_load True filename s req_comp =
     Inr (Block (map (\<lambda>n. Some (checker_byte n)) [0..<12288]),
          s\<lparr>x_val := 64, y_val := 64, comp_val := 3\<rparr>, 4096)"
proof -
  let ?s = "s\<lparr>x_val := 64, y_val := 64, comp_val := 3\<rparr>"
  have "\<exists>d'. loop_i ?s (int 0) (Block (replicate 12288 None), 0) = Inr (Block d', 0 + 64 * 64)
      \<and> filled 4096 d'"
    by (rule loop_i_run) (simp_all add: filled_start)
  then obtain d' where "loop_i ?s 0 (Block (replicate 12288 None), 0) = Inr (Block d', 4096)"
    and "filled 4096 d'" by auto
  then show ?thesis
    by (simp add: stbi_load_def malloc_def filled_all)
qed

text \<open>When \<^verbatim>\<open>malloc\<close> fails the first store goes through the null pointer.\<close>

lemma stbi_load_null:
  "stbi_load False filename s req_comp = Inl NullDeref"
  by (simp add: stbi_load_def malloc_def loop_i.simps [of _ 0] loop_j.simps [of _ _ 0]
      fill_pixel_def)

subsection \<open>Reading the finished image\<close>

lemma image_nth:
  assumes "a < 64" "b < 64" "k < 3"
  shows "map (\<lambda>n. Some (checker_byte n)) [0..<12288] ! (3 * (a * 64 + b) + k) =
     Some ((if (a div 8 + b div 8) mod 2 = 0 then [255, 0, 0] else [0, 255, 0]) ! k)"
proof -
  have "3 * (a * 64 + b) + k < 12288" using assms by simp
  then have "map (\<lambda>n. Some (checker_byte n)) [0..<12288] ! (3 * (a * 64 + b) + k) =
      Some (checker_byte (3 * (a * 64 + b) + k))"
    by (simp del: mult_Suc_right)
  also have "checker_byte (3 * (a * 64 + b) + k) =
      (if (a div 8 + b div 8) mod 2 = 0 then [255, 0, 0] ! k else [0, 255, 0] ! k)"
    using assms by (intro checker_byte_at) simp_all
  finally show ?thesis by (simp split: if_splits)
qed

lemma image_pixel:
  assumes "0 \<le> i" "i < 64" "0 \<le> j" "j < 64" "0 \<le> k" "k < 3"
  shows "map (\<lambda>n. Some (checker_byte n)) [0..<12288] ! nat ((i * 64 + j) * 3 + k) =
     Some ((if (i div 8 + j div 8) mod 2 = 0 then [255, 0, 0] else [0, 255, 0]) ! nat k)"
proof -
  obtain a b c where abc: "i = int a" "j = int b" "k = int c"
    using assms by (metis nat_0_le)
  with assms have "a < 64" "b < 64" "c < 3" by simp_all
  then show ?thesis
    unfolding abc offset_nat tile_test_int nat_int by (rule image_nth)
qed

lemma image_byte:
  assumes "m < 12288"
  shows "map (\<lambda>n. Some (checker_byte n)) [0..<12288] ! m =
     Some ((if (m div 3 div 64 div 8 + m div 3 mod 64 div 8) mod 2 = 0
            then [255, 0, 0] else [0, 255, 0]) ! (m mod 3))"
  using assms by (simp add: checker_byte_def)

lemma image_length: "length (map (\<lambda>n. Some (checker_byte n)) [0..<12288]) = 12288"
  by simp

lemma image_written: "None \<notin> set (map (\<lambda>n. Some (checker_byte n)) [0..<12288])"
  by auto

text \<open>The loop body run on a block as \<^verbatim>\<open>malloc\<close> hands it out.\<close>

lemma fill_pixel_fresh:
  assumes x: "x_val s = 64" and a: "a < 64" and b: "b < 64" and c: "c < 3"
  shows "\<exists>d1. fill_pixel s (int a) (int b) (Block (replicate 12288 None)) = Inr (Block d1)
     \<and> d1 ! (3 * (a * 64 + b) + c) = Some (checker_byte (3 * (a * 64 + b) + c))"
proof -
  define p where "p = a * 64 + b"
  have pb: "p < 4096" using a b by (simp add: p_def)
  let ?d0 = "replicate 12288 (None :: cell)"
  let ?d1 = "?d0[3 * p := Some (checker_byte (3 * p)),
               3 * p + 1 := Some (checker_byte (3 * p + 1)),
               3 * p + 2 := Some (checker_byte (3 * p + 2))]"
  have run: "fill_pixel s (int a) (int b) (Block ?d0) = Inr (Block ?d1)"
    using pb by (intro fill_pixel_Block [OF x p_def b]) simp
  have "c = 0 \<or> c = 1 \<or> c = 2" using c by arith
  then have "?d1 ! (3 * p + c) = Some (checker_byte (3 * p + c))"
    using pb by auto
  with run show ?thesis unfolding p_def by blast
qed

section \<open>The properties\<close>

text \<open>
  In what follows pixel \<open>(row, col)\<close> is the pixel the loop body stores for \<open>i = row\<close> and
  \<open>j = col\<close>: the three bytes at offsets \<open>(row * 64 + col) * 3\<close>, \<open>+ 1\<close> and \<open>+ 2\<close>. A
  buffer is returned when \<^verbatim>\<open>malloc\<close> succeeds, so the properties of the returned buffer
  are stated for \<open>heap_ok = True\<close>.
\<close>

text \<open>
  C1. For every pixel coordinate \<open>(row, col)\<close> with \<open>0 \<le> row, col < 64\<close>, the returned
  buffer holds the pixel \<open>(255, 0, 0)\<close> if \<open>(row div 8 + col div 8) mod 2 = 0\<close> and
  \<open>(0, 255, 0)\<close> otherwise.
\<close>

theorem checkerboard_pixels:
  assumes "0 \<le> row" "row < 64" "0 \<le> col" "col < 64"
  shows "\<exists>d s' n. stbi_load True filename s req_comp = Inr (Block d, s', n) \<and>
     (d ! nat ((row * 64 + col) * 3), d ! nat ((row * 64 + col) * 3 + 1),
      d ! nat ((row * 64 + col) * 3 + 2)) =
       (if (row div 8 + col div 8) mod 2 = 0 then (Some 255, Some 0, Some 0)
        else (Some 0, Some 255, Some 0))"
proof -
  let ?d = "map (\<lambda>n. Some (checker_byte n)) [0..<12288]"
  let ?rgb = "if (row div 8 + col div 8) mod 2 = 0 then [255, 0, 0] else [0, 255, 0 :: stbi_uc]"
  have "?d ! nat ((row * 64 + col) * 3 + 0) = Some (?rgb ! nat 0)"
    using assms by (intro image_pixel) simp_all
  moreover have "?d ! nat ((row * 64 + col) * 3 + 1) = Some (?rgb ! nat 1)"
    using assms by (intro image_pixel) simp_all
  moreover have "?d ! nat ((row * 64 + col) * 3 + 2) = Some (?rgb ! nat 2)"
    using assms by (intro image_pixel) simp_all
  ultimately have "(?d ! nat ((row * 64 + col) * 3), ?d ! nat ((row * 64 + col) * 3 + 1),
      ?d ! nat ((row * 64 + col) * 3 + 2)) =
       (if (row div 8 + col div 8) mod 2 = 0 then (Some 255, Some 0, Some 0)
        else (Some 0, Some 255, Some 0))"
    by (simp split: if_splits)
  then show ?thesis
    unfolding stbi_load_ok by blast
qed

theorem checkerboard_pixels_witness:
  "\<exists>d s' n. stbi_load True ''tile.png'' \<lparr>x_val = 0, y_val = 0, comp_val = 0\<rparr> 3
       = Inr (Block d, s', n) \<and>
     (d ! 4656, d ! 4657, d ! 4658) = (Some 0, Some 255, Some 0)"
  using checkerboard_pixels [of 24 16 "''tile.png''" "\<lparr>x_val = 0, y_val = 0, comp_val = 0\<rparr>" 3]
  by simp

text \<open>
  C2. For every file name and every requested number of components the call returns
  width 64, height 64 and 3 components in the out-parameters, whatever they held before.
\<close>

theorem fixed_dimensions:
  "\<exists>p s' n. stbi_load True filename s req_comp = Inr (p, s', n) \<and>
     x_val s' = 64 \<and> y_val s' = 64 \<and> comp_val s' = 3"
  unfolding stbi_load_ok by simp

theorem fixed_dimensions_witness:
  "\<exists>p s' n. stbi_load True ''sprites/hero.png'' \<lparr>x_val = 1920, y_val = 1080, comp_val = 4\<rparr> 4
       = Inr (p, s', n) \<and>
     x_val s' = 64 \<and> y_val s' = 64 \<and> comp_val s' = 3"
  by (rule fixed_dimensions)

text \<open>
  C3. After every successful call the returned pointer is a block whose length is
  width times height times the number of components as the call left them, that is
  \<open>64 * 64 * 3 = 12288\<close> bytes.
\<close>

theorem buffer_length:
  assumes "stbi_load heap_ok filename s req_comp = Inr (p, s', n)"
  shows "\<exists>d. p = Block d \<and> int (length d) = x_val s' * y_val s' * comp_val s' \<and>
     length d = 64 * 64 * 3 \<and> length d = 12288"
proof (cases heap_ok)
  case True
  with assms have "stbi_load True filename s req_comp = Inr (p, s', n)" by simp
  then show ?thesis unfolding stbi_load_ok by auto
next
  case False
  with assms have "stbi_load False filename s req_comp = Inr (p, s', n)" by simp
  then show ?thesis unfolding stbi_load_null by simp
qed

theorem buffer_length_witness:
  "\<exists>p s' n d. stbi_load True ''a.png'' \<lparr>x_val = 1, y_val = 2, comp_val = 4\<rparr> 0
       = Inr (p, s', n) \<and>
     p = Block d \<and> int (length d) = x_val s' * y_val s' * comp_val s' \<and> length d = 12288"
proof -
  obtain p s' n
    where h: "stbi_load True ''a.png'' \<lparr>x_val = 1, y_val = 2, comp_val = 4\<rparr> 0 = Inr (p, s', n)"
    unfolding stbi_load_ok by blast
  from buffer_length [OF h] h show ?thesis by blast
qed

text \<open>
  C4. Any two calls, with any file names, any requested numbers of components and any
  previous content of the out-parameters, return the same bytes and leave the same
  width, height and number of components. The two buffers are the same list of 12288
  written bytes \<open>bs\<close>: no cell of either is left as \<^verbatim>\<open>malloc\<close> handed it out.
\<close>

theorem input_independence:
  "\<exists>d bs s' n. stbi_load True filename1 s1 req_comp1 = Inr (Block d, s', n) \<and>
     stbi_load True filename2 s2 req_comp2 = Inr (Block d, s', n) \<and>
     d = map Some bs \<and> length bs = 12288 \<and> None \<notin> set d \<and>
     x_val s' = 64 \<and> y_val s' = 64 \<and> comp_val s' = 3"
proof -
  let ?d = "map (\<lambda>n. Some (checker_byte n)) [0..<12288]"
  let ?bs = "map checker_byte [0..<12288]"
  let ?s1 = "s1\<lparr>x_val := 64, y_val := 64, comp_val := 3\<rparr>"
  have same: "s2\<lparr>x_val := 64, y_val := 64, comp_val := 3\<rparr> = ?s1" by simp
  have "?d = map Some ?bs" and "length ?bs = 12288" and "None \<notin> set ?d"
    and "x_val ?s1 = 64" and "y_val ?s1 = 64" and "comp_val ?s1 = 3"
    using image_written by simp_all
  then show ?thesis
    unfolding stbi_load_ok same by blast
qed

theorem input_independence_witness:
  "\<exists>d bs s' n.
     stbi_load True ''a.png'' \<lparr>x_val = 0, y_val = 0, comp_val = 0\<rparr> 3 = Inr (Block d, s', n) \<and>
     stbi_load True ''nonexistent.jpg'' \<lparr>x_val = 7, y_val = - 2, comp_val = 9\<rparr> 0
       = Inr (Block d, s', n) \<and>
     d = map Some bs \<and> length bs = 12288 \<and> None \<notin> set d \<and>
     x_val s' = 64 \<and> y_val s' = 64 \<and> comp_val s' = 3"
  by (rule input_independence)

text \<open>
  C5. The call \<^verbatim>\<open>stbi_load("nonexistent.png", &x, &y, &comp, 4)\<close> succeeds and returns a
  64 by 64 by 3 buffer in which pixel \<open>(0, 0)\<close> is \<open>(255, 0, 0)\<close>, pixel \<open>(8, 0)\<close> is
  \<open>(0, 255, 0)\<close> and pixel \<open>(8, 8)\<close> is \<open>(255, 0, 0)\<close>. Pixel \<open>(8, 0)\<close> starts at offset
  1536 when 8 is the row and at offset 24 when 8 is the column; both are given.
\<close>

theorem scenario_nonexistent_png:
  "\<exists>d s' n. stbi_load True ''nonexistent.png'' s 4 = Inr (Block d, s', n) \<and>
     x_val s' = 64 \<and> y_val s' = 64 \<and> comp_val s' = 3 \<and> length d = 64 * 64 * 3 \<and>
     (d ! 0, d ! 1, d ! 2) = (Some 255, Some 0, Some 0) \<and>
     (d ! 1536, d ! 1537, d ! 1538) = (Some 0, Some 255, Some 0) \<and>
     (d ! 24, d ! 25, d ! 26) = (Some 0, Some 255, Some 0) \<and>
     (d ! 1560, d ! 1561, d ! 1562) = (Some 255, Some 0, Some 0)"
  unfolding stbi_load_ok by (simp add: checker_byte_def)

theorem scenario_nonexistent_png_witness:
  "\<exists>d s' n. stbi_load True ''nonexistent.png'' \<lparr>x_val = 0, y_val = 0, comp_val = 0\<rparr> 4
       = Inr (Block d, s', n) \<and>
     x_val s' = 64 \<and> y_val s' = 64 \<and> comp_val s' = 3 \<and> length d = 64 * 64 * 3 \<and>
     (d ! 0, d ! 1, d ! 2) = (Some 255, Some 0, Some 0) \<and>
     (d ! 1536, d ! 1537, d ! 1538) = (Some 0, Some 255, Some 0) \<and>
     (d ! 24, d ! 25, d ! 26) = (Some 0, Some 255, Some 0) \<and>
     (d ! 1560, d ! 1561, d ! 1562) = (Some 255, Some 0, Some 0)"
  by (rule scenario_nonexistent_png)

text \<open>
  C6, as the code has it. The buffer is the block the call obtains from \<^verbatim>\<open>malloc\<close>,
  whose bytes are indeterminate: nothing sets them to zero. Every one of its 12288 bytes
  is then stored by the pattern rule before the call returns, so the caller sees no
  byte that was not written: the byte at offset \<open>m\<close> is component \<open>m mod 3\<close> of the
  colour of the tile of row \<open>m div 3 div 64\<close> and column \<open>m div 3 mod 64\<close>.
\<close>

theorem every_byte_written:
  "\<exists>d s' n. stbi_load True filename s req_comp = Inr (Block d, s', n) \<and>
     malloc True (64 * 64 * 3) = Block (replicate 12288 None) \<and>
     length d = 12288 \<and>
     (\<forall>m<12288. d ! m =
        Some ((if (m div 3 div 64 div 8 + m div 3 mod 64 div 8) mod 2 = 0
               then [255, 0, 0] else [0, 255, 0]) ! (m mod 3)))"
proof -
  have "malloc True (64 * 64 * 3) = Block (replicate 12288 None)"
    by (simp add: malloc_def)
  then show ?thesis
    unfolding stbi_load_ok using image_byte image_length by blast
qed

theorem every_byte_written_witness:
  "\<exists>d s' n. stbi_load True ''photo.jpg'' \<lparr>x_val = - 1, y_val = 7, comp_val = 0\<rparr> 1
        = Inr (Block d, s', n) \<and>
     length d = 12288 \<and> d ! 12287 = Some 0 \<and> d ! 12286 = Some 0 \<and> d ! 12285 = Some 255"
proof -
  from every_byte_written [of "''photo.jpg''" "\<lparr>x_val = - 1, y_val = 7, comp_val = 0\<rparr>" 1]
  obtain d s' n
    where h: "stbi_load True ''photo.jpg'' \<lparr>x_val = - 1, y_val = 7, comp_val = 0\<rparr> 1
        = Inr (Block d, s', n)" "length d = 12288"
      and b: "\<forall>m<12288. d ! m =
        Some ((if (m div 3 div 64 div 8 + m div 3 mod 64 div 8) mod 2 = 0
               then [255, 0, 0] else [0, 255, 0]) ! (m mod 3))"
    by blast
  from b have "d ! 12287 = Some 0" "d ! 12286 = Some 0" "d ! 12285 = Some 255"
    by simp_all
  with h show ?thesis by blast
qed

text \<open>
  C6 as it is worded says the buffer is zero-initialised before it is filled. The block
  the call gets from \<^verbatim>\<open>malloc(size)\<close> is not a block of zero bytes.
\<close>

theorem malloc_not_zeroed:
  "malloc True (64 * 64 * 3) \<noteq> Block (replicate (64 * 64 * 3) (Some 0))"
  by (simp add: malloc_def replicate_eq_replicate)

text \<open>
  C7. When the allocation succeeds the call returns a block of 12288 written bytes for
  every file name and every requested number of components; a fault occurs exactly
  when the allocation fails.
\<close>

theorem allocation_only_fault:
  "(heap_ok \<longrightarrow> (\<exists>d s' n. stbi_load heap_ok filename s req_comp = Inr (Block d, s', n) \<and>
       length d = 12288 \<and> None \<notin> set d)) \<and>
   ((\<exists>e. stbi_load heap_ok filename s req_comp = Inl e) = (\<not> heap_ok))"
proof (cases heap_ok)
  case True
  then show ?thesis using image_written by (simp add: stbi_load_ok)
next
  case False
  then show ?thesis by (simp add: stbi_load_null)
qed

theorem allocation_only_fault_witness:
  "\<exists>d s' n. stbi_load True ''missing.bmp'' \<lparr>x_val = 0, y_val = 0, comp_val = 0\<rparr> (- 1)
        = Inr (Block d, s', n) \<and> length d = 12288 \<and> None \<notin> set d"
  using allocation_only_fault
    [of True "''missing.bmp''" "\<lparr>x_val = 0, y_val = 0, comp_val = 0\<rparr>" "- 1"]
  by simp

text \<open>
  C8. The call ends for every input. Both loops are total functions (their termination
  is proved where they are defined, for any bounds), and with a successful allocation
  the body of the inner loop runs exactly \<open>64 * 64\<close> times, whatever the file name, the
  requested number of components and the previous content of the out-parameters. With
  a failed allocation the run stops at the first store.
\<close>

theorem fixed_iteration_count:
  "(\<exists>p s'. stbi_load True filename s req_comp = Inr (p, s', 64 * 64)) \<and>
   stbi_load False filename s req_comp = Inl NullDeref"
  by (simp add: stbi_load_ok stbi_load_null)

theorem fixed_iteration_count_witness:
  "(\<exists>p s'. stbi_load True ''a.png'' \<lparr>x_val = 5, y_val = 1000000, comp_val = 0\<rparr> 2
       = Inr (p, s', 64 * 64)) \<and>
   stbi_load False ''a.png'' \<lparr>x_val = 5, y_val = 1000000, comp_val = 0\<rparr> 2 = Inl NullDeref"
  by (rule fixed_iteration_count)

text \<open>
  C9. The layout is row-major with interleaved components: for every row \<open>i\<close>, column
  \<open>j\<close> and component \<open>k\<close> (0 red, 1 green, 2 blue), the byte of the returned buffer at
  offset \<open>(i * 64 + j) * 3 + k\<close> is the byte that the loop body for \<open>i\<close> and \<open>j\<close>, run on
  a fresh block, stores at that offset: component \<open>k\<close> of the colour the test
  \<^verbatim>\<open>(i / 8 + j / 8) % 2 == 0\<close> selects.
\<close>

theorem row_major_layout:
  assumes "0 \<le> i" "i < 64" "0 \<le> j" "j < 64" "0 \<le> k" "k < 3"
  shows "\<exists>d s' n d1. stbi_load True filename s req_comp = Inr (Block d, s', n) \<and>
     nat ((i * 64 + j) * 3 + k) < length d \<and>
     fill_pixel s' i j (malloc True (x_val s' * y_val s' * 3)) = Inr (Block d1) \<and>
     d1 ! nat ((i * 64 + j) * 3 + k) =
       Some ((if c_mod (c_div i 8 + c_div j 8) 2 = 0 then [255, 0, 0] else [0, 255, 0]) ! nat k) \<and>
     d ! nat ((i * 64 + j) * 3 + k) = d1 ! nat ((i * 64 + j) * 3 + k)"
proof -
  let ?d = "map (\<lambda>n. Some (checker_byte n)) [0..<12288]"
  let ?s = "s\<lparr>x_val := 64, y_val := 64, comp_val := 3\<rparr>"
  obtain a b c where abc: "i = int a" "j = int b" "k = int c"
    using assms by (metis nat_0_le)
  with assms have a: "a < 64" and b: "b < 64" and c: "c < 3" by simp_all
  let ?m = "3 * (a * 64 + b) + c"
  have m: "nat ((i * 64 + j) * 3 + k) = ?m"
    unfolding abc by (rule offset_nat)
  have bound: "?m < 12288" using a b c by simp
  have fresh: "malloc True (x_val ?s * y_val ?s * 3) = Block (replicate 12288 None)"
    by (simp add: malloc_def)
  from fill_pixel_fresh [OF _ a b c, of ?s]
  obtain d1
    where run: "fill_pixel ?s (int a) (int b) (Block (replicate 12288 None)) = Inr (Block d1)"
      and d1: "d1 ! ?m = Some (checker_byte ?m)" by auto
  have val: "checker_byte ?m =
      (if c_mod (c_div i 8 + c_div j 8) 2 = 0 then [255, 0, 0] else [0, 255, 0]) ! nat k"
    unfolding abc tile_test_nat nat_int
    using checker_byte_at [OF refl b c, of a] by (simp split: if_splits)
  have fin: "?d ! ?m = Some (checker_byte ?m)"
    using bound by (simp del: mult_Suc_right)
  have "nat ((i * 64 + j) * 3 + k) < length ?d \<and>
     fill_pixel ?s i j (malloc True (x_val ?s * y_val ?s * 3)) = Inr (Block d1) \<and>
     d1 ! nat ((i * 64 + j) * 3 + k) =
       Some ((if c_mod (c_div i 8 + c_div j 8) 2 = 0 then [255, 0, 0] else [0, 255, 0]) ! nat k) \<and>
     ?d ! nat ((i * 64 + j) * 3 + k) = d1 ! nat ((i * 64 + j) * 3 + k)"
    unfolding m fresh using bound run d1 val fin by (simp add: abc del: mult_Suc_right)
  then show ?thesis unfolding stbi_load_ok by blast
qed

theorem row_major_layout_witness:
  "\<exists>d s' n d1. stbi_load True ''a.png'' \<lparr>x_val = 0, y_val = 0, comp_val = 0\<rparr> 0
        = Inr (Block d, s', n) \<and>
     fill_pixel s' 63 63 (malloc True (x_val s' * y_val s' * 3)) = Inr (Block d1) \<and>
     d1 ! 12286 = Some 0 \<and> d ! 12286 = d1 ! 12286"
  using row_major_layout [of 63 63 1 "''a.png''" "\<lparr>x_val = 0, y_val = 0, comp_val = 0\<rparr>" 0]
  by (simp add: c_div_def c_mod_def) blast

text \<open>
  C10. The image is symmetric under transposition: for all \<open>i\<close> and \<open>j\<close> from 0 to 63
  the three bytes of pixel \<open>(i, j)\<close> equal the three bytes of pixel \<open>(j, i)\<close>. Both
  pixels hold the same three written bytes \<open>r\<close>, \<open>g\<close> and \<open>b\<close>.
\<close>

theorem transpose_symmetry:
  assumes "0 \<le> i" "i < 64" "0 \<le> j" "j < 64"
  shows "\<exists>d s' n r g b. stbi_load True filename s req_comp = Inr (Block d, s', n) \<and>
     (d ! nat ((i * 64 + j) * 3), d ! nat ((i * 64 + j) * 3 + 1),
      d ! nat ((i * 64 + j) * 3 + 2)) = (Some r, Some g, Some b) \<and>
     (d ! nat ((j * 64 + i) * 3), d ! nat ((j * 64 + i) * 3 + 1),
      d ! nat ((j * 64 + i) * 3 + 2)) = (Some r, Some g, Some b)"
proof -
  let ?d = "map (\<lambda>n. Some (checker_byte n)) [0..<12288]"
  let ?rgb = "if (i div 8 + j div 8) mod 2 = 0 then [255, 0, 0] else [0, 255, 0 :: stbi_uc]"
  have here: "?d ! nat ((i * 64 + j) * 3 + k) = Some (?rgb ! nat k)"
    if k: "0 \<le> k" "k < 3" for k
    using assms k by (intro image_pixel)
  have there: "?d ! nat ((j * 64 + i) * 3 + k) = Some (?rgb ! nat k)"
    if k: "0 \<le> k" "k < 3" for k
  proof -
    have "?d ! nat ((j * 64 + i) * 3 + k) =
        Some ((if (j div 8 + i div 8) mod 2 = 0 then [255, 0, 0] else [0, 255, 0]) ! nat k)"
      using assms k by (intro image_pixel)
    then show ?thesis by (simp only: add.commute [of "j div 8"])
  qed
  from here [of 0] here [of 1] here [of 2]
  have 1: "(?d ! nat ((i * 64 + j) * 3), ?d ! nat ((i * 64 + j) * 3 + 1),
      ?d ! nat ((i * 64 + j) * 3 + 2)) = (Some (?rgb ! nat 0), Some (?rgb ! nat 1), Some (?rgb ! nat 2))"
    by simp
  from there [of 0] there [of 1] there [of 2]
  have 2: "(?d ! nat ((j * 64 + i) * 3), ?d ! nat ((j * 64 + i) * 3 + 1),
      ?d ! nat ((j * 64 + i) * 3 + 2)) = (Some (?rgb ! nat 0), Some (?rgb ! nat 1), Some (?rgb ! nat 2))"
    by simp
  from 1 2 show ?thesis unfolding stbi_load_ok by blast
qed

theorem transpose_symmetry_witness:
  "\<exists>d s' n r g b. stbi_load True ''a.png'' \<lparr>x_val = 0, y_val = 0, comp_val = 0\<rparr> 0
        = Inr (Block d, s', n) \<and>
     (d ! 996, d ! 997, d ! 998) = (Some r, Some g, Some b) \<and>
     (d ! 2319, d ! 2320, d ! 2321) = (Some r, Some g, Some b)"
  using transpose_symmetry [of 5 12 "''a.png''" "\<lparr>x_val = 0, y_val = 0, comp_val = 0\<rparr>" 0]
  by simp

end
